theory Spec2Isabelle
  imports
    Complex_Main
    "HOL-Library.Multiset"
    "HOL-Library.Char_ord"
    "HOL-Library.List_Lexorder"
begin

section \<open>Python values that the programs raise and return\<close>

text \<open>
  Exceptions are values: a computation that may raise returns \<open>py_error + 'a\<close>, with
  \<open>Inl\<close> carrying the exception. \<open>ValueError\<close> and \<open>AttributeError\<close> keep their message
  or attribute name; \<open>OSError\<close> and \<open>ExternalError\<close> stand for what the operating system
  and the image libraries may raise.
\<close>

datatype py_error =
    ValueError string
  | IndexError
  | AttributeError string
  | AxisError
  | OSError
  | SystemExit
  | ExternalError string

definition bind :: "py_error + 'a \<Rightarrow> ('a \<Rightarrow> py_error + 'b) \<Rightarrow> py_error + 'b" where
  "bind m f = (case m of Inl e \<Rightarrow> Inl e | Inr x \<Rightarrow> f x)"

text \<open>
  \<open>xs[i]\<close> on a Python list: an index from 0 up to the length reads from the front, an
  index from \<open>-len(xs)\<close> up to \<open>-1\<close> reads from the back, every other index raises
  IndexError.
\<close>

definition py_index :: "'a list \<Rightarrow> int \<Rightarrow> py_error + 'a" where
  "py_index xs i =
     (if 0 \<le> i \<and> i < int (length xs) then Inr (xs ! nat i)
      else if - int (length xs) \<le> i \<and> i < 0 then Inr (xs ! nat (int (length xs) + i))
      else Inl IndexError)"

section \<open>colorization/data/image_file_or_directory.py\<close>

subsection \<open>Arrays\<close>

text \<open>
  A numpy array is its shape and its elements in row-major (C) order. The array is
  well formed when the number of elements is the product of the shape.
\<close>

record 'a ndarray =
  shape :: "nat list"
  elems :: "'a list"

definition wf_ndarray :: "'a ndarray \<Rightarrow> bool" where
  "wf_ndarray a = (length (elems a) = prod_list (shape a))"

text \<open>The element at a rank-3 index \<open>[i, j, k]\<close>.\<close>

definition at3 :: "'a ndarray \<Rightarrow> nat \<Rightarrow> nat \<Rightarrow> nat \<Rightarrow> 'a" where
  "at3 a i j k = elems a ! ((i * (shape a ! 1) + j) * (shape a ! 2) + k)"

text \<open>
  \<open>np.moveaxis(img, -1, 0)\<close>: the last axis becomes the first, the other axes keep
  their order. An array of rank 0 has no axis \<open>-1\<close>; numpy raises AxisError.
\<close>

definition moveaxis_last_first :: "'a ndarray \<Rightarrow> py_error + 'a ndarray" where
  "moveaxis_last_first a =
     (if shape a = [] then Inl AxisError
      else
        let c = last (shape a);
            m = prod_list (butlast (shape a))
        in Inr \<lparr> shape = c # butlast (shape a),
                 elems = concat (map (\<lambda>k. map (\<lambda>i. elems a ! (i * c + k)) [0..<m]) [0..<c]) \<rparr>)"

text \<open>\<open>img.astype(dtype)\<close>: the same shape, every element cast.\<close>

definition astype :: "('a \<Rightarrow> 'b) \<Rightarrow> 'a ndarray \<Rightarrow> 'b ndarray" where
  "astype cast a = \<lparr> shape = shape a, elems = map cast (elems a) \<rparr>"

subsection \<open>The environment\<close>

text \<open>
  What the class asks of the operating system and of the image libraries:
  \<open>os.path.exists\<close>, \<open>os.path.isdir\<close>, \<open>os.listdir\<close> (the names in the order in which the
  operating system enumerates them, \<open>None\<close> when it raises OSError),
  \<open>skimage.io.imread\<close>, \<open>skimage.color.rgb2lab\<close> (either may raise) and the cast of one
  element to \<open>DTYPE = np.float32\<close>.
\<close>

record ('rgb, 'f64, 'f32) env =
  os_path_exists :: "string \<Rightarrow> bool"
  os_path_isdir :: "string \<Rightarrow> bool"
  os_listdir :: "string \<Rightarrow> string list option"
  io_imread :: "string \<Rightarrow> py_error + 'rgb"
  color_rgb2lab :: "'rgb \<Rightarrow> py_error + 'f64 ndarray"
  to_float32 :: "'f64 \<Rightarrow> 'f32"

text \<open>\<open>os.path.join(a, b)\<close> of posixpath, for two components.\<close>

definition os_path_join :: "string \<Rightarrow> string \<Rightarrow> string" where
  "os_path_join a b =
     (if take 1 b = ''/'' then b
      else if a = [] \<or> last a = CHR ''/'' then a @ b
      else a @ ''/'' @ b)"

subsection \<open>The class\<close>

datatype mode = MODE_FILE | MODE_DIR

text \<open>
  An instance holds \<open>root\<close> and \<open>files\<close> in directory mode and \<open>file\<close> (written
  \<open>file'\<close>) in file mode; the attribute \<open>mode\<close> is read off the constructor by
  \<open>mode_of\<close>.
\<close>

datatype dataset =
    Dir_dataset (root: string) (files: "string list")
  | File_dataset (file': string)

fun mode_of :: "dataset \<Rightarrow> mode" where
  "mode_of (Dir_dataset r fs) = MODE_DIR"
| "mode_of (File_dataset f) = MODE_FILE"

text \<open>\<open>__init__(self, file_or_root, transform=None)\<close>; \<open>transform\<close> is not used.\<close>

definition init ::
  "('rgb, 'f64, 'f32) env \<Rightarrow> string \<Rightarrow> 't option \<Rightarrow> py_error + dataset" where
  "init e file_or_root transform =
     (if \<not> os_path_exists e file_or_root
      then Inl (ValueError (CHR 0x27 # file_or_root @ CHR 0x27 # '' does not exist''))
      else if os_path_isdir e file_or_root
      then (case os_listdir e file_or_root of
              None \<Rightarrow> Inl OSError
            | Some names \<Rightarrow> Inr (Dir_dataset file_or_root (sort names)))
      else Inr (File_dataset file_or_root))"

definition load_image ::
  "('rgb, 'f64, 'f32) env \<Rightarrow> string \<Rightarrow> py_error + 'f32 ndarray" where
  "load_image e path =
     bind (io_imread e path) (\<lambda>rgb.
     bind (color_rgb2lab e rgb) (\<lambda>lab.
     bind (moveaxis_last_first lab) (\<lambda>img.
     Inr (astype (to_float32 e) img))))"

fun getitem ::
  "('rgb, 'f64, 'f32) env \<Rightarrow> dataset \<Rightarrow> int \<Rightarrow> py_error + ('f32 ndarray \<times> string)" where
  "getitem e (Dir_dataset r fs) index =
     bind (py_index fs index) (\<lambda>name.
       let path = os_path_join r name
       in bind (load_image e path) (\<lambda>img. Inr (img, path)))"
| "getitem e (File_dataset f) index =
     bind (load_image e f) (\<lambda>img. Inr (img, f))"

fun len :: "dataset \<Rightarrow> nat" where
  "len (Dir_dataset r fs) = length fs"
| "len (File_dataset f) = 1"

text \<open>A small file system for concrete instances: a directory \<open>imgs\<close> with two images,
  enumerated by the operating system in the order \<open>b.png\<close>, \<open>a.png\<close>.\<close>

definition demo_lab :: "string \<Rightarrow> real ndarray" where
  "demo_lab p =
     (if p = ''imgs/a.png''
      then \<lparr> shape = [1, 2, 3], elems = [50, 10, 20, 60, 30, 40] \<rparr>
      else \<lparr> shape = [1, 1, 3], elems = [70, 0, 5] \<rparr>)"

definition demo_env :: "(string, real, real) env" where
  "demo_env =
     \<lparr> os_path_exists = (\<lambda>p. p = ''imgs'' \<or> p = ''imgs/a.png'' \<or> p = ''imgs/b.png''),
       os_path_isdir = (\<lambda>p. p = ''imgs''),
       os_listdir = (\<lambda>p. if p = ''imgs'' then Some [''b.png'', ''a.png''] else None),
       io_imread = (\<lambda>p. if p = ''imgs/a.png'' \<or> p = ''imgs/b.png'' then Inr p
                         else Inl (ExternalError p)),
       color_rgb2lab = (\<lambda>rgb. Inr (demo_lab rgb)),
       to_float32 = (\<lambda>x. x) \<rparr>"

section \<open>run_evaluation.py\<close>

text \<open>
  The script parses its command line with argparse and validates the resulting
  namespace before any configuration or model is loaded. Attribute values are
  \<open>None\<close>, strings, the integer default of \<open>--input-size\<close> and the flag of \<open>--verbose\<close>.
\<close>

datatype pyval = PyNone | PyStr string | PyInt int | PyBool bool

text \<open>One \<open>parser.add_argument\<close> call: the option string, \<open>required\<close>, \<open>default\<close>
  and \<open>action\<close>.\<close>

datatype action = Store | StoreTrue

record argument =
  flag :: string
  required :: bool
  default_value :: pyval
  action :: action

text \<open>The eleven \<open>add_argument\<close> calls, in the order of the script.\<close>

definition arguments :: "argument list" where
  "arguments =
     [\<lparr> flag = ''--config'', required = True, default_value = PyNone, action = Store \<rparr>,
      \<lparr> flag = ''--input-image'', required = False, default_value = PyNone, action = Store \<rparr>,
      \<lparr> flag = ''--input-dir'', required = False, default_value = PyNone, action = Store \<rparr>,
      \<lparr> flag = ''--output-image'', required = False, default_value = PyNone, action = Store \<rparr>,
      \<lparr> flag = ''--output-dir'', required = False, default_value = PyNone, action = Store \<rparr>,
      \<lparr> flag = ''--input-size'', required = False, default_value = PyInt 224, action = Store \<rparr>,
      \<lparr> flag = ''--pretrain-proto'', required = False, default_value = PyNone, action = Store \<rparr>,
      \<lparr> flag = ''--pretrain-model'', required = False, default_value = PyNone, action = Store \<rparr>,
      \<lparr> flag = ''--checkpoint'', required = False, default_value = PyNone, action = Store \<rparr>,
      \<lparr> flag = ''--checkpoint-dir'', required = False, default_value = PyNone, action = Store \<rparr>,
      \<lparr> flag = ''--verbose'', required = False, default_value = PyBool False, action = StoreTrue \<rparr>]"

text \<open>The attribute name argparse derives from an option string: the leading prefix
  characters are stripped and every \<open>-\<close> becomes \<open>_\<close>.\<close>

definition dest :: "string \<Rightarrow> string" where
  "dest f = map (\<lambda>c. if c = CHR ''-'' then CHR ''_'' else c) (dropWhile (\<lambda>c. c = CHR ''-'') f)"

text \<open>
  A command line is the value given for each option, if any (for \<open>--verbose\<close> any value
  means that the flag is present). The namespace lists each attribute argparse sets,
  with its value; reading any other attribute raises AttributeError.
\<close>

type_synonym cmdline = "string \<Rightarrow> string option"
type_synonym namespace = "(string \<times> pyval) list"

definition parsed_value :: "cmdline \<Rightarrow> argument \<Rightarrow> pyval" where
  "parsed_value cl a =
     (case cl (flag a) of
        None \<Rightarrow> default_value a
      | Some v \<Rightarrow> (case action a of Store \<Rightarrow> PyStr v | StoreTrue \<Rightarrow> PyBool True))"

definition parse_args :: "cmdline \<Rightarrow> py_error + namespace" where
  "parse_args cl =
     (if list_ex (\<lambda>a. required a \<and> cl (flag a) = None) arguments then Inl SystemExit
      else Inr (map (\<lambda>a. (dest (flag a), parsed_value cl a)) arguments))"

definition getattr :: "namespace \<Rightarrow> string \<Rightarrow> py_error + pyval" where
  "getattr args name =
     (case map_of args name of None \<Rightarrow> Inl (AttributeError name) | Some v \<Rightarrow> Inr v)"

text \<open>\<open>args.x is None\<close>, \<open>args.x is not None\<close>, and the operators of the conditions;
  \<open>and\<close> and \<open>or\<close> evaluate their right operand only when the left one does not decide.\<close>

definition is_None :: "namespace \<Rightarrow> string \<Rightarrow> py_error + bool" where
  "is_None args name = bind (getattr args name) (\<lambda>v. Inr (v = PyNone))"

definition is_not_None :: "namespace \<Rightarrow> string \<Rightarrow> py_error + bool" where
  "is_not_None args name = bind (getattr args name) (\<lambda>v. Inr (v \<noteq> PyNone))"

definition py_and :: "py_error + bool \<Rightarrow> py_error + bool \<Rightarrow> py_error + bool" where
  "py_and a b = bind a (\<lambda>x. if x then b else Inr False)"

definition py_or :: "py_error + bool \<Rightarrow> py_error + bool \<Rightarrow> py_error + bool" where
  "py_or a b = bind a (\<lambda>x. if x then Inr True else b)"

definition py_eq :: "py_error + bool \<Rightarrow> py_error + bool \<Rightarrow> py_error + bool" where
  "py_eq a b = bind a (\<lambda>x. bind b (\<lambda>y. Inr (x = y)))"

definition py_ne :: "py_error + bool \<Rightarrow> py_error + bool \<Rightarrow> py_error + bool" where
  "py_ne a b = bind a (\<lambda>x. bind b (\<lambda>y. Inr (x \<noteq> y)))"

text \<open>\<open>if cond: _err(msg)\<close> followed by the rest of the script; \<open>_err\<close> raises
  ValueError.\<close>

definition err_if :: "py_error + bool \<Rightarrow> string \<Rightarrow> py_error + 'a \<Rightarrow> py_error + 'a" where
  "err_if cond msg rest = bind cond (\<lambda>c. if c then Inl (ValueError msg) else rest)"

text \<open>
  The block \<open># validate arguments\<close> up to the computation of \<open>pretrained\<close> and
  \<open>checkpointed\<close>, which it returns. The fifth condition reads the attribute
  \<open>checkoint_dir\<close>, as the script does.
\<close>

definition validate :: "namespace \<Rightarrow> py_error + (bool \<times> bool)" where
  "validate args =
     err_if (py_eq (is_None args ''input_image'') (is_None args ''input_dir''))
       ''either --input-image OR --input-dir must be specified''
    (err_if (py_and (is_not_None args ''input_image'') (is_None args ''output_image''))
       ''--input-image and --output-image must be specified together''
    (err_if (py_and (is_not_None args ''input_dir'') (is_None args ''output_dir''))
       ''--input-dir and --output-dir must be specified together''
    (err_if (py_ne (is_None args ''pretrain_proto'') (is_None args ''pretrain_model''))
       ''--pretrain-proto and --pretrain-model must be specified together''
    (err_if (py_and (is_not_None args ''checkpoint'') (is_not_None args ''checkoint_dir''))
       ''--checkpoint and --checkpoint-dir may not be specified together''
    (bind (is_not_None args ''pretrain_proto'') (\<lambda>pretrained.
     bind (py_or (is_not_None args ''checkpoint'') (is_not_None args ''checkpoint_dir''))
       (\<lambda>checkpointed.
     if pretrained = checkpointed
     then Inl (ValueError ''either pretrained network OR checkpoint must be specified'')
     else Inr (pretrained, checkpointed))))))))"

text \<open>
  The script: parse, validate, then everything from \<open># load configuration file(s)\<close> on
  (loading the configuration, the weights or the checkpoint, and predicting), which is
  the parameter \<open>run\<close>.
\<close>

definition main ::
  "(namespace \<Rightarrow> bool \<Rightarrow> bool \<Rightarrow> py_error + 'r) \<Rightarrow> cmdline \<Rightarrow> py_error + 'r" where
  "main run cl =
     bind (parse_args cl) (\<lambda>args.
     bind (validate args) (\<lambda>(pretrained, checkpointed).
     run args pretrained checkpointed))"

text \<open>The command line \<open>--config cfg.json --input-image in.png --output-image out.png
  --checkpoint ckpt.tar\<close>.\<close>

definition demo_cmdline :: cmdline where
  "demo_cmdline =
     [''--config'' \<mapsto> ''cfg.json'', ''--input-image'' \<mapsto> ''in.png'',
      ''--output-image'' \<mapsto> ''out.png'', ''--checkpoint'' \<mapsto> ''ckpt.tar'']"

section \<open>The quantized color-space core\<close>

text \<open>
  The modules \<open>colorization.cielab\<close>, \<open>soft_encode_ab\<close> and \<open>annealed_mean_decode_q\<close>
  are imported by \<open>colorization/test/test_modules.py\<close>, which builds the encoder with
  the default table and the decoder with \<open>T = 0\<close>; the sources of the modules themselves
  are absent. The definitions of this section follow the specification of these
  components, over the real numbers: rounding, overflow and underflow of floating-point
  arithmetic are not modelled. The pixelwise loss (\<open>cross_entropy_loss_2d\<close>, absent as
  well) is not modelled: the specification gives its algorithm as the negative dot
  product of the target with the log-softmax, and guarantees the value 0 whenever the
  normalised scores equal the target, which that dot product does not have for a target
  with several nonzero entries.
\<close>

subsection \<open>Gamut table\<close>

text \<open>
  Modelled from the spec: the Gamut Table (\<open>colorization.cielab\<close>, absent). A chrominance
  sample is a pair \<open>(a, b)\<close>; the table is the ordered list of the bin centers, and the
  index of a bin is its position.
\<close>

type_synonym ab = "real \<times> real"
type_synonym gamut_table = "ab list"

text \<open>
  Modelled from the spec: the failures of the error taxonomy that the components
  report (their modules are absent): an invalid temperature, and scores whose shape
  does not match the table.
\<close>

datatype failure = Invalid_temperature real | Shape_mismatch

text \<open>Modelled from the spec: \<open>size()\<close> and \<open>centerOf(index)\<close> of the absent Gamut
  Table.\<close>

definition size_of :: "gamut_table \<Rightarrow> nat" where
  "size_of tbl = length tbl"

definition centerOf :: "gamut_table \<Rightarrow> nat \<Rightarrow> ab" where
  "centerOf tbl i = tbl ! i"

text \<open>Modelled from the spec: the Euclidean distance in the \<open>(a, b)\<close> plane that the
  absent \<open>nearestK\<close> uses.\<close>

definition euclid :: "ab \<Rightarrow> ab \<Rightarrow> real" where
  "euclid s c = sqrt ((fst s - fst c)\<^sup>2 + (snd s - snd c)\<^sup>2)"

text \<open>
  Modelled from the spec: \<open>nearestK(sample, k)\<close> of the absent Gamut Table, the \<open>k\<close> bins
  closest to the sample with their distances, ties broken by ascending index (the sort
  is stable), and all \<open>N\<close> entries when \<open>k > N\<close>.
\<close>

definition nearestK :: "gamut_table \<Rightarrow> ab \<Rightarrow> nat \<Rightarrow> (nat \<times> real) list" where
  "nearestK tbl s k =
     take k (sort_key snd (map (\<lambda>i. (i, euclid s (centerOf tbl i))) [0..<size_of tbl]))"

subsection \<open>Soft encoder\<close>

text \<open>Modelled from the spec: the Gaussian kernel \<open>weight(d) = exp(-d\<^sup>2 / (2\<sigma>\<^sup>2))\<close> of the
  absent Soft Encoder.\<close>

definition weight :: "real \<Rightarrow> real \<Rightarrow> real" where
  "weight \<sigma> d = exp (- d\<^sup>2 / (2 * \<sigma>\<^sup>2))"

text \<open>
  Modelled from the spec: \<open>encode(sample)\<close> of the absent Soft Encoder
  (\<open>soft_encode_ab\<close>): the \<open>k\<close> nearest bins get their kernel weights, normalised to
  sum 1, every other bin gets 0.
\<close>

definition encode :: "gamut_table \<Rightarrow> nat \<Rightarrow> real \<Rightarrow> ab \<Rightarrow> real list" where
  "encode tbl k \<sigma> s =
     (let ws = map (\<lambda>(i, d). (i, weight \<sigma> d)) (nearestK tbl s k);
          total = sum_list (map snd ws)
      in map (\<lambda>i. case map_of ws i of None \<Rightarrow> 0 | Some w \<Rightarrow> w / total) [0..<size_of tbl])"

subsection \<open>Annealed decoder\<close>

text \<open>Modelled from the spec: the maximal score, subtracted before exponentiation in
  the normalisation of the absent decoder.\<close>

definition max_score :: "real list \<Rightarrow> real" where
  "max_score s = fold max (tl s) (hd s)"

text \<open>Modelled from the spec: step 1 of the absent Annealed Decoder,
  \<open>p\<^sub>i = exp(s\<^sub>i) / \<Sum> exp(s\<^sub>j)\<close>, stabilised by the maximal score.\<close>

definition softmax :: "real list \<Rightarrow> real list" where
  "softmax s =
     (let m = max_score s;
          es = map (\<lambda>x. exp (x - m)) s;
          z = sum_list es
      in map (\<lambda>e. e / z) es)"

text \<open>
  Modelled from the spec: the selection of step 3 of the absent Annealed Decoder, the
  bin of maximal probability, the lowest index among equals: a scan that replaces the
  best bin only by a strictly larger one.
\<close>

fun argmax_scan :: "real list \<Rightarrow> nat \<Rightarrow> nat \<Rightarrow> real \<Rightarrow> nat" where
  "argmax_scan [] i best v = best"
| "argmax_scan (x # xs) i best v =
     (if v < x then argmax_scan xs (Suc i) i x else argmax_scan xs (Suc i) best v)"

definition argmax :: "real list \<Rightarrow> nat" where
  "argmax p = (case p of [] \<Rightarrow> 0 | x # xs \<Rightarrow> argmax_scan xs 1 0 x)"

text \<open>Modelled from the spec: the weights of step 3 of the absent Annealed Decoder,
  1 on the selected bin and 0 on all others.\<close>

definition one_hot :: "nat \<Rightarrow> nat \<Rightarrow> real list" where
  "one_hot n i = map (\<lambda>j. if j = i then 1 else 0) [0..<n]"

text \<open>
  Modelled from the spec: steps 2 and 3 of the absent Annealed Decoder,
  \<open>q\<^sub>i = p\<^sub>i\<^bsup>1/T\<^esup> / \<Sum> p\<^sub>j\<^bsup>1/T\<^esup>\<close> for \<open>T > 0\<close> and the selected bin for \<open>T = 0\<close>.
\<close>

definition reweight :: "real \<Rightarrow> real list \<Rightarrow> real list" where
  "reweight T p =
     (if T = 0 then one_hot (length p) (argmax p)
      else
        let qs = map (\<lambda>x. x powr (1 / T)) p;
            z = sum_list qs
        in map (\<lambda>q. q / z) qs)"

text \<open>Modelled from the spec: step 4 of the absent Annealed Decoder, the weighted sum
  of the bin centers.\<close>

definition expectation :: "gamut_table \<Rightarrow> real list \<Rightarrow> ab" where
  "expectation tbl q =
     (sum_list (map (\<lambda>i. q ! i * fst (centerOf tbl i)) [0..<size_of tbl]),
      sum_list (map (\<lambda>i. q ! i * snd (centerOf tbl i)) [0..<size_of tbl]))"

text \<open>
  Modelled from the spec: an instance of the absent Annealed Decoder
  (\<open>annealed_mean_decode_q\<close>), the table and the temperature; a negative temperature is
  rejected when the instance is built.
\<close>

record decoder =
  table :: gamut_table
  temperature :: real

definition annealed_decoder :: "gamut_table \<Rightarrow> real \<Rightarrow> failure + decoder" where
  "annealed_decoder tbl T =
     (if T < 0 then Inl (Invalid_temperature T)
      else Inr \<lparr> table = tbl, temperature = T \<rparr>)"

text \<open>
  Modelled from the spec: the absent Annealed Decoder on the scores of one pixel, and on
  a score map, pixel by pixel; scores that are not of length \<open>N\<close> are rejected.
\<close>

definition decode_pixel :: "decoder \<Rightarrow> real list \<Rightarrow> failure + ab" where
  "decode_pixel dec scores =
     (if length scores \<noteq> size_of (table dec) then Inl Shape_mismatch
      else Inr (expectation (table dec) (reweight (temperature dec) (softmax scores))))"

fun decode_map :: "decoder \<Rightarrow> real list list \<Rightarrow> failure + ab list" where
  "decode_map dec [] = Inr []"
| "decode_map dec (s # ss) =
     (case decode_pixel dec s of
        Inl e \<Rightarrow> Inl e
      | Inr c \<Rightarrow> (case decode_map dec ss of Inl e \<Rightarrow> Inl e | Inr cs \<Rightarrow> Inr (c # cs)))"

text \<open>Modelled from the spec: \<open>decode(rawScores, T)\<close> of the absent Annealed Decoder,
  from the configuration to the chrominance image.\<close>

definition decode :: "gamut_table \<Rightarrow> real \<Rightarrow> real list list \<Rightarrow> failure + ab list" where
  "decode tbl T score_map =
     (case annealed_decoder tbl T of Inl e \<Rightarrow> Inl e | Inr dec \<Rightarrow> decode_map dec score_map)"

text \<open>The gamut of the concrete scenarios: step 10, bins \<open>(0,0)\<close>, \<open>(10,0)\<close>, \<open>(0,10)\<close>.\<close>

definition demo_table :: gamut_table where
  "demo_table = [(0, 0), (10, 0), (0, 10)]"

text \<open>\<open>first_max p r\<close>: \<open>r\<close> is the lowest index at which the list \<open>p\<close> is maximal.\<close>

definition first_max :: "real list \<Rightarrow> nat \<Rightarrow> bool" where
  "first_max p r \<longleftrightarrow> r < length p \<and> (\<forall>j<length p. p ! j \<le> p ! r) \<and> (\<forall>j<r. p ! j < p ! r)"

section \<open>Properties of colorization/data/image_file_or_directory.py\<close>

subsection \<open>Facts about the arrays and the error monad\<close>

lemma bind_Inr [simp]: "bind (Inr x) f = f x"
  by (simp add: bind_def)

lemma bind_Inl [simp]: "bind (Inl e) f = Inl e"
  by (simp add: bind_def)

lemma py_index_nat: "i < length xs \<Longrightarrow> py_index xs (int i) = Inr (xs ! i)"
  by (simp add: py_index_def)

lemma concat_blocks_length:
  "(\<And>k. k < c \<Longrightarrow> length (f k) = m) \<Longrightarrow> length (concat (map f [0..<c])) = c * m"
  by (induction c) simp_all

lemma concat_blocks_nth:
  assumes "\<And>k. k < c \<Longrightarrow> length (f k) = m" and "k < c" and "r < m"
  shows "concat (map f [0..<c]) ! (k * m + r) = f k ! r"
  using assms
proof (induction c)
  case 0
  then show ?case by simp
next
  case (Suc c)
  have len: "length (concat (map f [0..<c])) = c * m"
    using Suc.prems(1) by (simp add: concat_blocks_length)
  show ?case
  proof (cases "k < c")
    case True
    then have "k * m + r < c * m"
    proof -
      have "k * m + r < k * m + m" using Suc.prems(3) by simp
      also have "\<dots> = Suc k * m" by simp
      also have "\<dots> \<le> c * m" using True by (intro mult_le_mono1) simp
      finally show ?thesis .
    qed
    then show ?thesis
      using Suc.IH [OF _ True Suc.prems(3)] Suc.prems(1) len by (simp add: nth_append)
  next
    case False
    then have "k = c" using Suc.prems(2) by simp
    then show ?thesis
      using len Suc.prems(1,3) by (simp add: nth_append)
  qed
qed

lemma moveaxis_rank3:
  assumes "shape a = [h, w, c]"
  shows "\<exists>m. moveaxis_last_first a = Inr m \<and> shape m = [c, h, w] \<and>
           (\<forall>k<c. \<forall>i<h. \<forall>j<w. at3 m k i j = at3 a i j k)"
proof -
  let ?f = "\<lambda>k. map (\<lambda>i. elems a ! (i * c + k)) [0..<h * w]"
  let ?m = "\<lparr> shape = [c, h, w], elems = concat (map ?f [0..<c]) \<rparr>"
  have mv: "moveaxis_last_first a = Inr ?m"
    using assms by (simp add: moveaxis_last_first_def)
  have "at3 ?m k i j = at3 a i j k" if "k < c" "i < h" "j < w" for k i j
  proof -
    have "i * w + j < i * w + w" using that by simp
    also have "\<dots> = Suc i * w" by simp
    also have "\<dots> \<le> h * w" using that by (intro mult_le_mono1) simp
    finally have r: "i * w + j < h * w" .
    have "at3 ?m k i j = concat (map ?f [0..<c]) ! (k * (h * w) + (i * w + j))"
      by (simp add: at3_def algebra_simps)
    also have "\<dots> = ?f k ! (i * w + j)"
      by (rule concat_blocks_nth) (use that r in simp_all)
    also have "\<dots> = at3 a i j k"
      using r assms by (simp add: at3_def)
    finally show ?thesis .
  qed
  then show ?thesis using mv by auto
qed

lemma at3_astype:
  assumes "wf_ndarray a" "shape a = [d0, d1, d2]" "i < d0" "j < d1" "k < d2"
  shows "at3 (astype cast a) i j k = cast (at3 a i j k)"
proof -
  have "i * d1 + j < i * d1 + d1" using assms by simp
  also have "\<dots> = Suc i * d1" by simp
  also have "\<dots> \<le> d0 * d1" using assms by (intro mult_le_mono1) simp
  finally have "i * d1 + j < d0 * d1" .
  then have "Suc (i * d1 + j) * d2 \<le> d0 * d1 * d2"
    by (intro mult_le_mono1) simp
  moreover have "(i * d1 + j) * d2 + k < Suc (i * d1 + j) * d2"
    using assms by simp
  ultimately have "(i * d1 + j) * d2 + k < length (elems a)"
    using assms by (simp add: wf_ndarray_def)
  then show ?thesis
    using assms by (simp add: at3_def astype_def)
qed

subsection \<open>Properties of the dataset class\<close>

lemma demo_sorted: "sort [''b.png'', ''a.png''] = [''a.png'', ''b.png'']"
  by (simp add: list_le_def list_less_def)

lemma demo_init_dir:
  "init demo_env ''imgs'' tr = Inr (Dir_dataset ''imgs'' [''a.png'', ''b.png''])"
  by (simp add: init_def demo_env_def demo_sorted)

lemma demo_init_file:
  "init demo_env ''imgs/a.png'' tr = Inr (File_dataset ''imgs/a.png'')"
  by (simp add: init_def demo_env_def)

text \<open>
  Claim C6. \<open>__len__\<close> returns the count of the dataset: for a dataset that \<open>__init__\<close>
  built from a directory it is the number of names that \<open>os.listdir\<close> returned, and for
  one built from a single file it is 1.
\<close>

theorem len_counts_entries:
  assumes "init e p tr = Inr ds"
  shows "if os_path_isdir e p
         then \<exists>names. os_listdir e p = Some names \<and> len ds = length names
         else len ds = 1"
  using assms by (auto simp: init_def split: if_splits option.splits)

theorem len_counts_entries_witness:
  "init demo_env ''imgs'' (None :: unit option) = Inr (Dir_dataset ''imgs'' [''a.png'', ''b.png''])
   \<and> os_path_isdir demo_env ''imgs''
   \<and> os_listdir demo_env ''imgs'' = Some [''b.png'', ''a.png'']
   \<and> len (Dir_dataset ''imgs'' [''a.png'', ''b.png'']) = 2
   \<and> init demo_env ''imgs/a.png'' (None :: unit option) = Inr (File_dataset ''imgs/a.png'')
   \<and> \<not> os_path_isdir demo_env ''imgs/a.png''
   \<and> len (File_dataset ''imgs/a.png'') = 1"
  using len_counts_entries [OF demo_init_dir [of "None :: unit option"]]
    len_counts_entries [OF demo_init_file [of "None :: unit option"]]
  by (simp add: demo_init_dir demo_init_file) (simp add: demo_env_def)

text \<open>
  Claim C9. \<open>__init__\<close> raises ValueError exactly when the path does not exist. When it
  returns a dataset, the path exists, the dataset is in directory mode exactly when the
  path is a directory, and otherwise it is the single-file dataset, of length 1. An
  existing file always gives a dataset; an existing directory gives one when
  \<open>os.listdir\<close> returns its names (its OSError is not a ValueError).
\<close>

theorem init_raises_iff_missing:
  "((\<exists>msg. init e p tr = Inl (ValueError msg)) \<longleftrightarrow> \<not> os_path_exists e p) \<and>
   (\<forall>ds. init e p tr = Inr ds \<longrightarrow>
      os_path_exists e p \<and> 
      (mode_of ds = MODE_DIR \<longleftrightarrow> os_path_isdir e p) \<and>
      (mode_of ds = MODE_FILE \<longleftrightarrow> \<not> os_path_isdir e p) \<and>
      (\<not> os_path_isdir e p \<longrightarrow> ds = File_dataset p \<and> len ds = 1)) \<and>
   (os_path_exists e p \<and> \<not> os_path_isdir e p \<longrightarrow> init e p tr = Inr (File_dataset p)) \<and>
   (\<forall>names. os_path_exists e p \<and> os_path_isdir e p \<and> os_listdir e p = Some names \<longrightarrow>
      init e p tr = Inr (Dir_dataset p (sort names)))"
  by (auto simp: init_def split: if_splits option.splits)


theorem init_raises_iff_missing_witness:
  "\<not> os_path_exists demo_env ''nowhere'' \<and>
   init demo_env ''nowhere'' (None :: unit option)
     = Inl (ValueError (CHR 0x27 # ''nowhere'' @ CHR 0x27 # '' does not exist'')) \<and>
   os_path_exists demo_env ''imgs'' \<and> os_path_isdir demo_env ''imgs'' \<and>
   os_listdir demo_env ''imgs'' = Some [''b.png'', ''a.png''] \<and>
   init demo_env ''imgs'' (None :: unit option)
     = Inr (Dir_dataset ''imgs'' (sort [''b.png'', ''a.png''])) \<and>
   os_path_exists demo_env ''imgs/a.png'' \<and> \<not> os_path_isdir demo_env ''imgs/a.png'' \<and>
   init demo_env ''imgs/a.png'' (None :: unit option) = Inr (File_dataset ''imgs/a.png'') \<and>
   mode_of (File_dataset ''imgs/a.png'') = MODE_FILE \<and> len (File_dataset ''imgs/a.png'') = 1"
proof -
  have missing: "\<not> os_path_exists demo_env ''nowhere''"
    and dir: "os_path_exists demo_env ''imgs''" "os_path_isdir demo_env ''imgs''"
      "os_listdir demo_env ''imgs'' = Some [''b.png'', ''a.png'']"
    and fil: "os_path_exists demo_env ''imgs/a.png''" "\<not> os_path_isdir demo_env ''imgs/a.png''"
    by (simp_all add: demo_env_def)
  from missing init_raises_iff_missing [of demo_env "''nowhere''" "None :: unit option"]
  obtain msg where "init demo_env ''nowhere'' (None :: unit option) = Inl (ValueError msg)"
    by blast
  then have 1: "init demo_env ''nowhere'' (None :: unit option)
     = Inl (ValueError (CHR 0x27 # ''nowhere'' @ CHR 0x27 # '' does not exist''))"
    by (simp add: init_def split: if_splits option.splits)
  from dir init_raises_iff_missing [of demo_env "''imgs''" "None :: unit option"]
  have 2: "init demo_env ''imgs'' (None :: unit option)
     = Inr (Dir_dataset ''imgs'' (sort [''b.png'', ''a.png'']))"
    by blast
  from fil init_raises_iff_missing [of demo_env "''imgs/a.png''" "None :: unit option"]
  have 3: "init demo_env ''imgs/a.png'' (None :: unit option) = Inr (File_dataset ''imgs/a.png'')"
    by blast
  show ?thesis
    using missing dir fil 1 2 3 by simp
qed

text \<open>
  Claim C4. For a dataset built from an existing path and an index \<open>0 \<le> index < len\<close>,
  \<open>__getitem__\<close> returns the pair of an image and its path: the path is the given file in
  file mode and \<open>root\<close> joined with the \<open>index\<close>-th name in directory mode; when
  \<open>imread\<close> reads that path and \<open>rgb2lab\<close> gives a well-formed array of shape
  \<open>[h, w, c]\<close>, the image has shape \<open>[c, h, w]\<close> and its element \<open>[k, i, j]\<close> is the
  float32 cast of the Lab element \<open>[i, j, k]\<close>.
\<close>

theorem getitem_returns_channel_first_lab:
  assumes "init e p tr = Inr ds"
    and "0 \<le> index" and "index < int (len ds)"
    and "path = (if os_path_isdir e p then os_path_join p (files ds ! nat index) else p)"
    and "io_imread e path = Inr rgb"
    and "color_rgb2lab e rgb = Inr lab"
    and "wf_ndarray lab" and "shape lab = [h, w, c]"
  shows "\<exists>m. moveaxis_last_first lab = Inr m \<and>
           getitem e ds index = Inr (astype (to_float32 e) m, path) \<and>
           shape (astype (to_float32 e) m) = [c, h, w] \<and>
           (\<forall>k<c. \<forall>i<h. \<forall>j<w.
              at3 (astype (to_float32 e) m) k i j = to_float32 e (at3 lab i j k))"
proof -
  from moveaxis_rank3 [OF assms(8)] obtain m where
    m: "moveaxis_last_first lab = Inr m" "shape m = [c, h, w]"
      "\<forall>k<c. \<forall>i<h. \<forall>j<w. at3 m k i j = at3 lab i j k"
    by blast
  have wf_m: "wf_ndarray m"
    using m(1) assms(7,8)
    by (auto simp: moveaxis_last_first_def wf_ndarray_def concat_blocks_length mult.commute)
  have load: "load_image e path = Inr (astype (to_float32 e) m)"
    using assms(5,6) m(1) by (simp add: load_image_def)
  have get: "getitem e ds index = Inr (astype (to_float32 e) m, path)"
  proof (cases ds)
    case (Dir_dataset r fs)
    with assms(1) have dir: "os_path_isdir e p" "r = p"
      by (auto simp: init_def split: if_splits option.splits)
    have "py_index fs index = Inr (fs ! nat index)"
      using assms(2,3) Dir_dataset by (simp add: py_index_def)
    then show ?thesis
      using Dir_dataset dir assms(4) load by simp
  next
    case (File_dataset f)
    with assms(1) have "\<not> os_path_isdir e p" "f = p"
      by (auto simp: init_def split: if_splits option.splits)
    then show ?thesis
      using File_dataset assms(4) load by simp
  qed
  have "at3 (astype (to_float32 e) m) k i j = to_float32 e (at3 lab i j k)"
    if "k < c" "i < h" "j < w" for k i j
    using at3_astype [OF wf_m m(2) that] m(3) that by simp
  then show ?thesis
    using m(1,2) get by (auto simp: astype_def)
qed


lemma demo_moveaxis:
  "moveaxis_last_first (demo_lab ''imgs/a.png'')
     = Inr \<lparr> shape = [3, 1, 2], elems = [50, 60, 10, 30, 20, 40] \<rparr>"
  by (simp add: moveaxis_last_first_def demo_lab_def upt_rec)

theorem getitem_returns_channel_first_lab_witness:
  "init demo_env ''imgs'' (None :: unit option) = Inr (Dir_dataset ''imgs'' [''a.png'', ''b.png''])
   \<and> (0::int) < int (len (Dir_dataset ''imgs'' [''a.png'', ''b.png'']))
   \<and> io_imread demo_env ''imgs/a.png'' = Inr ''imgs/a.png''
   \<and> color_rgb2lab demo_env ''imgs/a.png'' = Inr (demo_lab ''imgs/a.png'')
   \<and> wf_ndarray (demo_lab ''imgs/a.png'') \<and> shape (demo_lab ''imgs/a.png'') = [1, 2, 3]
   \<and> getitem demo_env (Dir_dataset ''imgs'' [''a.png'', ''b.png'']) 0
       = Inr (\<lparr> shape = [3, 1, 2], elems = [50, 60, 10, 30, 20, 40] \<rparr>, ''imgs/a.png'')"
proof -
  have path: "''imgs/a.png'' = (if os_path_isdir demo_env ''imgs''
      then os_path_join ''imgs'' (files (Dir_dataset ''imgs'' [''a.png'', ''b.png'']) ! nat 0)
      else ''imgs'')"
    by (simp add: demo_env_def os_path_join_def)
  have rd: "io_imread demo_env ''imgs/a.png'' = Inr ''imgs/a.png''"
    and lab: "color_rgb2lab demo_env ''imgs/a.png'' = Inr (demo_lab ''imgs/a.png'')"
    by (simp_all add: demo_env_def)
  have wf: "wf_ndarray (demo_lab ''imgs/a.png'')"
    and sh: "shape (demo_lab ''imgs/a.png'') = [1, 2, 3]"
    by (simp_all add: wf_ndarray_def demo_lab_def)
  have ix: "(0::int) \<le> 0" "(0::int) < int (len (Dir_dataset ''imgs'' [''a.png'', ''b.png'']))"
    by simp_all
  from getitem_returns_channel_first_lab
    [OF demo_init_dir [of "None :: unit option"] ix path rd lab wf sh]
  have "getitem demo_env (Dir_dataset ''imgs'' [''a.png'', ''b.png'']) 0
       = Inr (\<lparr> shape = [3, 1, 2], elems = [50, 60, 10, 30, 20, 40] \<rparr>, ''imgs/a.png'')"
    by (auto simp: demo_moveaxis astype_def demo_env_def)
  then show ?thesis
    using rd lab wf sh ix demo_init_dir by simp
qed

text \<open>
  Claim C5. Let \<open>name\<close> be an entry of the directory \<open>r\<close> and \<open>p\<close> the path of that
  entry, a file. The dataset over \<open>p\<close> is in file mode, the dataset over \<open>r\<close> in directory
  mode with the sorted names, \<open>name\<close> occurs among them, and at every index where it
  occurs the directory dataset returns what the file dataset returns at index 0 (the
  same array and path, or the same exception).
\<close>

theorem file_mode_and_dir_mode_load_identically:
  assumes "os_path_exists e r" and "os_path_isdir e r"
    and "os_listdir e r = Some names" and "name \<in> set names"
    and "p = os_path_join r name"
    and "os_path_exists e p" and "\<not> os_path_isdir e p"
  shows "\<exists>dsf dsd. init e p tr = Inr dsf \<and> mode_of dsf = MODE_FILE \<and>
           init e r tr = Inr dsd \<and> mode_of dsd = MODE_DIR \<and>
           files dsd = sort names \<and>
           (\<exists>i<len dsd. files dsd ! i = name) \<and>
           (\<forall>i<len dsd. files dsd ! i = name \<longrightarrow>
              getitem e dsd (int i) = getitem e dsf 0)"
proof -
  have f: "init e p tr = Inr (File_dataset p)"
    using assms(6,7) by (simp add: init_def)
  have d: "init e r tr = Inr (Dir_dataset r (sort names))"
    using assms(1-3) by (simp add: init_def)
  have "name \<in> set (sort names)" using assms(4) by simp
  then obtain i where i: "i < length (sort names)" "sort names ! i = name"
    unfolding in_set_conv_nth by blast
  have "getitem e (Dir_dataset r (sort names)) (int j) = getitem e (File_dataset p) 0"
    if "j < length (sort names)" "sort names ! j = name" for j
    using that assms(5) by (simp add: py_index_nat Let_def)
  then show ?thesis
    using f d i by auto
qed

theorem file_mode_and_dir_mode_load_identically_witness:
  "os_path_exists demo_env ''imgs'' \<and> os_path_isdir demo_env ''imgs'' \<and>
   os_listdir demo_env ''imgs'' = Some [''b.png'', ''a.png''] \<and>
   ''a.png'' \<in> set [''b.png'', ''a.png''] \<and>
   ''imgs/a.png'' = os_path_join ''imgs'' ''a.png'' \<and>
   os_path_exists demo_env ''imgs/a.png'' \<and> \<not> os_path_isdir demo_env ''imgs/a.png'' \<and>
   getitem demo_env (Dir_dataset ''imgs'' [''a.png'', ''b.png'']) 0
     = getitem demo_env (File_dataset ''imgs/a.png'') 0"
proof -
  have h: "os_path_exists demo_env ''imgs''" "os_path_isdir demo_env ''imgs''"
    "os_listdir demo_env ''imgs'' = Some [''b.png'', ''a.png'']"
    "''a.png'' \<in> set [''b.png'', ''a.png'']"
    "''imgs/a.png'' = os_path_join ''imgs'' ''a.png''"
    "os_path_exists demo_env ''imgs/a.png''" "\<not> os_path_isdir demo_env ''imgs/a.png''"
    by (simp_all add: demo_env_def os_path_join_def)
  from file_mode_and_dir_mode_load_identically [OF h, of "None :: unit option"]
  have "getitem demo_env (Dir_dataset ''imgs'' [''a.png'', ''b.png'']) (int 0)
     = getitem demo_env (File_dataset ''imgs/a.png'') 0"
    by (auto simp: demo_init_dir demo_init_file)
  then show ?thesis
    using h by simp
qed

text \<open>
  Claim C10. In directory mode the names are sorted at construction: the stored list is
  ascending, without repetition, and holds exactly the names of the directory, so that
  \<open>__getitem__(i)\<close> loads the \<open>i\<close>-th name in ascending order. A second enumeration
  \<open>ld\<close> of the same set of names, in any order, gives the same dataset, and
  \<open>__getitem__\<close> does not consult the enumeration again.
\<close>

theorem dir_index_independent_of_enumeration:
  assumes "os_path_exists e r" and "os_path_isdir e r"
    and "os_listdir e r = Some names" and "distinct names"
    and "ld r = Some names'" and "distinct names'" and "set names' = set names"
  shows "\<exists>fs. init e r tr = Inr (Dir_dataset r fs) \<and>
           init (e\<lparr>os_listdir := ld\<rparr>) r tr = Inr (Dir_dataset r fs) \<and>
           sorted fs \<and> distinct fs \<and> set fs = set names \<and> length fs = length names \<and>
           (\<forall>i<length fs.
              getitem e (Dir_dataset r fs) (int i)
                = bind (load_image e (os_path_join r (fs ! i)))
                    (\<lambda>img. Inr (img, os_path_join r (fs ! i))) \<and>
              getitem (e\<lparr>os_listdir := ld\<rparr>) (Dir_dataset r fs) (int i)
                = getitem e (Dir_dataset r fs) (int i))"
proof -
  have "mset names' = mset names"
    using assms(4,6,7) by (simp add: set_eq_iff_mset_eq_distinct)
  then have same: "sort names' = sort names"
    by (intro properties_for_sort) simp_all
  have 1: "init e r tr = Inr (Dir_dataset r (sort names))"
    using assms(1-3) by (simp add: init_def)
  have 2: "init (e\<lparr>os_listdir := ld\<rparr>) r tr = Inr (Dir_dataset r (sort names))"
    using assms(1,2,5) same by (simp add: init_def)
  have 3: "load_image (e\<lparr>os_listdir := ld\<rparr>) q = load_image e q" for q
    by (simp add: load_image_def)
  have 4: "getitem e (Dir_dataset r (sort names)) (int i)
      = bind (load_image e (os_path_join r (sort names ! i)))
          (\<lambda>img. Inr (img, os_path_join r (sort names ! i)))"
    if "i < length (sort names)" for i
    using that by (simp add: py_index_nat Let_def)
  have 5: "getitem (e\<lparr>os_listdir := ld\<rparr>) (Dir_dataset r (sort names)) (int i)
      = getitem e (Dir_dataset r (sort names)) (int i)" for i
    by (simp add: 3)
  show ?thesis
    using 1 2 4 5 assms(4) by (intro exI [of _ "sort names"]) simp
qed


theorem dir_index_independent_of_enumeration_witness:
  "os_path_exists demo_env ''imgs'' \<and> os_path_isdir demo_env ''imgs'' \<and>
   os_listdir demo_env ''imgs'' = Some [''b.png'', ''a.png''] \<and>
   distinct [''b.png'', ''a.png''] \<and> distinct [''a.png'', ''b.png''] \<and>
   set [''a.png'', ''b.png''] = set [''b.png'', ''a.png''] \<and>
   init (demo_env\<lparr>os_listdir := (\<lambda>p. Some [''a.png'', ''b.png''])\<rparr>) ''imgs'' (None :: unit option)
     = init demo_env ''imgs'' (None :: unit option)"
proof -
  have h1: "os_path_exists demo_env ''imgs''"
    and h2: "os_path_isdir demo_env ''imgs''"
    and h3: "os_listdir demo_env ''imgs'' = Some [''b.png'', ''a.png'']"
    by (simp_all add: demo_env_def)
  have h4: "distinct [''b.png'', ''a.png'']"
    and h6: "distinct [''a.png'', ''b.png'']"
    by simp_all
  have h5: "(\<lambda>p :: string. Some [''a.png'', ''b.png'']) ''imgs'' = Some [''a.png'', ''b.png'']"
    by simp
  have h7: "set [''a.png'', ''b.png''] = set [''b.png'', ''a.png'']"
    by (simp add: insert_commute)
  from dir_index_independent_of_enumeration [OF h1 h2 h3 h4 h5 h6 h7, of "None :: unit option"]
  obtain fs where
    "init demo_env ''imgs'' (None :: unit option) = Inr (Dir_dataset ''imgs'' fs)"
    "init (demo_env\<lparr>os_listdir := (\<lambda>p. Some [''a.png'', ''b.png''])\<rparr>) ''imgs''
          (None :: unit option) = Inr (Dir_dataset ''imgs'' fs)"
    by blast
  then have "init (demo_env\<lparr>os_listdir := (\<lambda>p. Some [''a.png'', ''b.png''])\<rparr>) ''imgs''
          (None :: unit option) = init demo_env ''imgs'' (None :: unit option)"
    by simp
  then show ?thesis
    using h1 h2 h3 h4 h6 h7 by blast
qed

section \<open>Properties of run_evaluation.py\<close>

lemma parse_args_Inr:
  assumes "parse_args cl = Inr args"
  shows "cl ''--config'' \<noteq> None"
    and "args = map (\<lambda>a. (dest (flag a), parsed_value cl a)) arguments"
  using assms by (auto simp: parse_args_def arguments_def split: if_splits)

lemma parsed_value_None:
  "default_value a = PyNone \<Longrightarrow> (parsed_value cl a = PyNone) = (cl (flag a) = None)"
  by (auto simp: parsed_value_def split: option.splits action.splits)

lemma getattr_parsed:
  assumes "parse_args cl = Inr args"
  shows "is_None args ''input_image'' = Inr (cl ''--input-image'' = None)"
    and "is_None args ''input_dir'' = Inr (cl ''--input-dir'' = None)"
    and "is_None args ''output_image'' = Inr (cl ''--output-image'' = None)"
    and "is_None args ''output_dir'' = Inr (cl ''--output-dir'' = None)"
    and "is_None args ''pretrain_proto'' = Inr (cl ''--pretrain-proto'' = None)"
    and "is_None args ''pretrain_model'' = Inr (cl ''--pretrain-model'' = None)"
    and "is_not_None args ''input_image'' = Inr (cl ''--input-image'' \<noteq> None)"
    and "is_not_None args ''input_dir'' = Inr (cl ''--input-dir'' \<noteq> None)"
    and "is_not_None args ''pretrain_proto'' = Inr (cl ''--pretrain-proto'' \<noteq> None)"
    and "is_not_None args ''checkpoint'' = Inr (cl ''--checkpoint'' \<noteq> None)"
    and "is_not_None args ''checkpoint_dir'' = Inr (cl ''--checkpoint-dir'' \<noteq> None)"
    and "is_not_None args ''checkoint_dir'' = Inl (AttributeError ''checkoint_dir'')"
  unfolding parse_args_Inr(2) [OF assms]
  by (simp_all add: is_None_def is_not_None_def getattr_def arguments_def dest_def
      parsed_value_None)



lemma err_if_Inr: "err_if (Inr c) msg rest = (if c then Inl (ValueError msg) else rest)"
  by (simp add: err_if_def)

lemma err_if_Inl: "err_if (Inl e) msg rest = Inl e"
  by (simp add: err_if_def)

lemma py_and_Inr: "py_and (Inr a) b = (if a then b else Inr False)"
  by (simp add: py_and_def)

lemma py_or_Inr: "py_or (Inr a) b = (if a then Inr True else b)"
  by (simp add: py_or_def)

lemma if_Inr_False: "(if a then Inr b else Inr False) = (Inr (a \<and> b) :: py_error + bool)"
  by simp

lemma if_Inr_True: "(if a then Inr True else Inr b) = (Inr (a \<or> b) :: py_error + bool)"
  by simp

lemma py_eq_Inr: "py_eq (Inr a) (Inr b) = Inr (a = b)"
  by (simp add: py_eq_def)

lemma py_ne_Inr: "py_ne (Inr a) (Inr b) = Inr (a \<noteq> b)"
  by (simp add: py_ne_def)

lemma validate_parsed:
  assumes "parse_args cl = Inr args"
  shows "validate args =
     (if (cl ''--input-image'' = None) = (cl ''--input-dir'' = None)
      then Inl (ValueError ''either --input-image OR --input-dir must be specified'')
      else if cl ''--input-image'' \<noteq> None \<and> cl ''--output-image'' = None
      then Inl (ValueError ''--input-image and --output-image must be specified together'')
      else if cl ''--input-dir'' \<noteq> None \<and> cl ''--output-dir'' = None
      then Inl (ValueError ''--input-dir and --output-dir must be specified together'')
      else if (cl ''--pretrain-proto'' = None) \<noteq> (cl ''--pretrain-model'' = None)
      then Inl (ValueError ''--pretrain-proto and --pretrain-model must be specified together'')
      else if cl ''--checkpoint'' \<noteq> None
      then Inl (AttributeError ''checkoint_dir'')
      else if (cl ''--pretrain-proto'' \<noteq> None) = (cl ''--checkpoint-dir'' \<noteq> None)
      then Inl (ValueError ''either pretrained network OR checkpoint must be specified'')
      else Inr (cl ''--pretrain-proto'' \<noteq> None, cl ''--checkpoint-dir'' \<noteq> None))"
proof (cases "cl ''--checkpoint'' = None")
  case True
  show ?thesis
    unfolding validate_def getattr_parsed [OF assms] py_and_Inr py_or_Inr py_eq_Inr py_ne_Inr
      err_if_Inr bind_Inr
    by (simp only: True simp_thms if_True if_False if_Inr_False if_Inr_True err_if_Inr bind_Inr)
next
  case False
  show ?thesis
    unfolding validate_def getattr_parsed [OF assms] py_and_Inr py_or_Inr py_eq_Inr py_ne_Inr
      err_if_Inr bind_Inr
    by (simp only: False simp_thms if_True if_False if_Inr_False if_Inr_True err_if_Inr
        err_if_Inl bind_Inl)
qed



lemma validate_with_checkpoint:
  assumes "parse_args cl = Inr args" and "cl ''--checkpoint'' \<noteq> None"
  shows "validate args =
     (if (cl ''--input-image'' = None) = (cl ''--input-dir'' = None)
      then Inl (ValueError ''either --input-image OR --input-dir must be specified'')
      else if cl ''--input-image'' \<noteq> None \<and> cl ''--output-image'' = None
      then Inl (ValueError ''--input-image and --output-image must be specified together'')
      else if cl ''--input-dir'' \<noteq> None \<and> cl ''--output-dir'' = None
      then Inl (ValueError ''--input-dir and --output-dir must be specified together'')
      else if (cl ''--pretrain-proto'' = None) \<noteq> (cl ''--pretrain-model'' = None)
      then Inl (ValueError ''--pretrain-proto and --pretrain-model must be specified together'')
      else Inl (AttributeError ''checkoint_dir''))"
  unfolding validate_parsed [OF assms(1)] by (simp only: if_P [OF assms(2)])

lemma validate_never_rejects_both:
  assumes "parse_args cl = Inr args"
  shows "validate args
     \<noteq> Inl (ValueError ''--checkpoint and --checkpoint-dir may not be specified together'')"
  unfolding validate_parsed [OF assms] by simp

lemma validate_with_checkpoint_fails:
  assumes "parse_args cl = Inr args" and "cl ''--checkpoint'' \<noteq> None"
  shows "\<exists>e. validate args = Inl e"
  unfolding validate_with_checkpoint [OF assms] by simp

lemma main_with_checkpoint_fails:
  assumes "cl ''--checkpoint'' \<noteq> None"
  shows "\<exists>e. \<forall>run :: namespace \<Rightarrow> bool \<Rightarrow> bool \<Rightarrow> py_error + 'r. main run cl = Inl e"
proof (cases "parse_args cl")
  case (Inl e)
  then show ?thesis by (simp add: main_def)
next
  case (Inr args)
  from validate_with_checkpoint_fails [OF Inr assms] obtain e where "validate args = Inl e" ..
  then show ?thesis using Inr by (simp add: main_def)
qed

lemma validate_checkpoint_AttributeError:
  assumes "parse_args cl = Inr args"
    and "cl ''--checkpoint'' \<noteq> None"
    and "(cl ''--input-image'' = None) \<noteq> (cl ''--input-dir'' = None)"
    and "cl ''--input-image'' \<noteq> None \<longrightarrow> cl ''--output-image'' \<noteq> None"
    and "cl ''--input-dir'' \<noteq> None \<longrightarrow> cl ''--output-dir'' \<noteq> None"
    and "(cl ''--pretrain-proto'' = None) = (cl ''--pretrain-model'' = None)"
  shows "validate args = Inl (AttributeError ''checkoint_dir'')"
proof -
  have c1: "\<not> ((cl ''--input-image'' = None) = (cl ''--input-dir'' = None))"
    using assms(3) by blast
  have c2: "\<not> (cl ''--input-image'' \<noteq> None \<and> cl ''--output-image'' = None)"
    using assms(4) by blast
  have c3: "\<not> (cl ''--input-dir'' \<noteq> None \<and> cl ''--output-dir'' = None)"
    using assms(5) by blast
  have c4: "\<not> ((cl ''--pretrain-proto'' = None) \<noteq> (cl ''--pretrain-model'' = None))"
    using assms(6) by blast
  show ?thesis
    unfolding validate_with_checkpoint [OF assms(1,2)]
    by (simp only: if_not_P [OF c1] if_not_P [OF c2] if_not_P [OF c3] if_not_P [OF c4])
qed

lemma namespace_attributes:
  assumes "parse_args cl = Inr args"
  shows "map fst args = [''config'', ''input_image'', ''input_dir'', ''output_image'',
     ''output_dir'', ''input_size'', ''pretrain_proto'', ''pretrain_model'', ''checkpoint'',
     ''checkpoint_dir'', ''verbose'']"
    and "getattr args ''checkoint_dir'' = Inl (AttributeError ''checkoint_dir'')"
  unfolding parse_args_Inr(2) [OF assms]
  by (simp_all add: getattr_def arguments_def dest_def)

text \<open>
  Claim C8. argparse sets the attribute \<open>checkpoint_dir\<close> and no attribute
  \<open>checkoint_dir\<close>. Whenever \<open>--checkpoint\<close> is given and the earlier checks pass, the
  validation raises AttributeError for \<open>checkoint_dir\<close>, and so does the script, whatever
  would follow. The rejection of \<open>--checkpoint\<close> together with \<open>--checkpoint-dir\<close> is never
  raised, and every run with \<open>--checkpoint\<close> ends in an exception before the
  configuration or a model is loaded.
\<close>

theorem checkpoint_option_raises_AttributeError:
  "(\<forall>args. parse_args cl = Inr args \<longrightarrow>
      ''checkpoint_dir'' \<in> set (map fst args) \<and> ''checkoint_dir'' \<notin> set (map fst args) \<and>
      validate args
        \<noteq> Inl (ValueError ''--checkpoint and --checkpoint-dir may not be specified together'') \<and>
      (cl ''--checkpoint'' \<noteq> None \<longrightarrow> (\<exists>e. validate args = Inl e)) \<and>
      (cl ''--checkpoint'' \<noteq> None \<and>
       (cl ''--input-image'' = None) \<noteq> (cl ''--input-dir'' = None) \<and>
       (cl ''--input-image'' \<noteq> None \<longrightarrow> cl ''--output-image'' \<noteq> None) \<and>
       (cl ''--input-dir'' \<noteq> None \<longrightarrow> cl ''--output-dir'' \<noteq> None) \<and>
       (cl ''--pretrain-proto'' = None) = (cl ''--pretrain-model'' = None) \<longrightarrow>
       validate args = Inl (AttributeError ''checkoint_dir'') \<and>
       (\<forall>run :: namespace \<Rightarrow> bool \<Rightarrow> bool \<Rightarrow> py_error + 'r.
          main run cl = Inl (AttributeError ''checkoint_dir'')))) \<and>
   (cl ''--checkpoint'' \<noteq> None \<longrightarrow>
      (\<exists>e. \<forall>run :: namespace \<Rightarrow> bool \<Rightarrow> bool \<Rightarrow> py_error + 'r. main run cl = Inl e))"
proof (intro conjI allI impI)
  fix args assume p: "parse_args cl = Inr args"
  show "''checkpoint_dir'' \<in> set (map fst args)"
    and "''checkoint_dir'' \<notin> set (map fst args)"
    unfolding namespace_attributes(1) [OF p] by simp_all
  show "validate args
        \<noteq> Inl (ValueError ''--checkpoint and --checkpoint-dir may not be specified together'')"
    by (rule validate_never_rejects_both [OF p])
  show "\<exists>e. validate args = Inl e" if "cl ''--checkpoint'' \<noteq> None"
    by (rule validate_with_checkpoint_fails [OF p that])
next
  fix args
  assume p: "parse_args cl = Inr args"
    and h: "cl ''--checkpoint'' \<noteq> None \<and>
       (cl ''--input-image'' = None) \<noteq> (cl ''--input-dir'' = None) \<and>
       (cl ''--input-image'' \<noteq> None \<longrightarrow> cl ''--output-image'' \<noteq> None) \<and>
       (cl ''--input-dir'' \<noteq> None \<longrightarrow> cl ''--output-dir'' \<noteq> None) \<and>
       (cl ''--pretrain-proto'' = None) = (cl ''--pretrain-model'' = None)"
  have v: "validate args = Inl (AttributeError ''checkoint_dir'')"
    by (rule validate_checkpoint_AttributeError [OF p h [THEN conjunct1]
          h [THEN conjunct2, THEN conjunct1]
          h [THEN conjunct2, THEN conjunct2, THEN conjunct1]
          h [THEN conjunct2, THEN conjunct2, THEN conjunct2, THEN conjunct1]
          h [THEN conjunct2, THEN conjunct2, THEN conjunct2, THEN conjunct2]])
  show "validate args = Inl (AttributeError ''checkoint_dir'')"
    by (rule v)
  show "main run cl = Inl (AttributeError ''checkoint_dir'')"
    for run :: "namespace \<Rightarrow> bool \<Rightarrow> bool \<Rightarrow> py_error + 'r"
    by (simp add: main_def p v)
next
  assume "cl ''--checkpoint'' \<noteq> None"
  then show "\<exists>e. \<forall>run :: namespace \<Rightarrow> bool \<Rightarrow> bool \<Rightarrow> py_error + 'r. main run cl = Inl e"
    by (rule main_with_checkpoint_fails)
qed


lemma demo_parse:
  "parse_args demo_cmdline =
     Inr (map (\<lambda>a. (dest (flag a), parsed_value demo_cmdline a)) arguments)"
  by (simp add: parse_args_def arguments_def demo_cmdline_def)

theorem checkpoint_option_raises_AttributeError_witness:
  "demo_cmdline ''--checkpoint'' \<noteq> None \<and>
   demo_cmdline ''--input-image'' \<noteq> None \<and> demo_cmdline ''--input-dir'' = None \<and>
   demo_cmdline ''--output-image'' \<noteq> None \<and>
   demo_cmdline ''--pretrain-proto'' = None \<and> demo_cmdline ''--pretrain-model'' = None \<and>
   (\<exists>args. parse_args demo_cmdline = Inr args) \<and>
   main (\<lambda>args pretrained checkpointed. Inr ()) demo_cmdline
     = Inl (AttributeError ''checkoint_dir'')"
proof -
  have g: "demo_cmdline ''--checkpoint'' \<noteq> None"
    "demo_cmdline ''--input-image'' \<noteq> None" "demo_cmdline ''--input-dir'' = None"
    "demo_cmdline ''--output-image'' \<noteq> None"
    "demo_cmdline ''--pretrain-proto'' = None" "demo_cmdline ''--pretrain-model'' = None"
    by (simp_all add: demo_cmdline_def)
  have h: "demo_cmdline ''--checkpoint'' \<noteq> None \<and>
     (demo_cmdline ''--input-image'' = None) \<noteq> (demo_cmdline ''--input-dir'' = None) \<and>
     (demo_cmdline ''--input-image'' \<noteq> None \<longrightarrow> demo_cmdline ''--output-image'' \<noteq> None) \<and>
     (demo_cmdline ''--input-dir'' \<noteq> None \<longrightarrow> demo_cmdline ''--output-dir'' \<noteq> None) \<and>
     (demo_cmdline ''--pretrain-proto'' = None) = (demo_cmdline ''--pretrain-model'' = None)"
    by (simp add: demo_cmdline_def)
  note t = checkpoint_option_raises_AttributeError [of demo_cmdline, where ?'r = unit]
  note t1 = t [THEN conjunct1, THEN spec, THEN mp, OF demo_parse]
  note t2 = t1 [THEN conjunct2, THEN conjunct2, THEN conjunct2, THEN conjunct2, THEN mp, OF h]
  have m: "main (\<lambda>args pretrained checkpointed. Inr ()) demo_cmdline
     = Inl (AttributeError ''checkoint_dir'')"
    by (rule t2 [THEN conjunct2, THEN spec])
  have e: "\<exists>args. parse_args demo_cmdline = Inr args"
    using demo_parse by (rule exI)
  show ?thesis
    by (intro conjI g e m)
qed

section \<open>Properties of the quantized color-space core\<close>

subsection \<open>Decoding\<close>

lemma first_max_snoc_greater:
  assumes "first_max pre b" and "pre ! b < x"
  shows "first_max (pre @ [x]) (length pre)"
proof -
  have "pre ! j < x" if "j < length pre" for j
  proof -
    have "pre ! j \<le> pre ! b" using assms(1) that by (simp add: first_max_def)
    then show ?thesis using assms(2) by simp
  qed
  then show ?thesis
    by (auto simp: first_max_def nth_append less_Suc_eq intro: less_imp_le)
qed

lemma first_max_snoc_not_greater:
  assumes "first_max pre b" and "\<not> pre ! b < x"
  shows "first_max (pre @ [x]) b"
  using assms by (auto simp: first_max_def nth_append less_Suc_eq)

lemma argmax_scan_first_max:
  assumes "first_max pre b" and "v = pre ! b" and "i = length pre"
  shows "first_max (pre @ xs) (argmax_scan xs i b v)"
  using assms
proof (induction xs arbitrary: pre b v i)
  case Nil
  then show ?case by simp
next
  case (Cons x xs)
  show ?case
  proof (cases "v < x")
    case True
    have "first_max (pre @ [x]) (length pre)"
      using Cons.prems True by (intro first_max_snoc_greater [of pre b]) simp_all
    then have "first_max ((pre @ [x]) @ xs) (argmax_scan xs (Suc i) (length pre) x)"
      using Cons.prems by (intro Cons.IH) simp_all
    then show ?thesis using True Cons.prems by simp
  next
    case False
    have "first_max (pre @ [x]) b"
      using Cons.prems False by (intro first_max_snoc_not_greater) simp_all
    then have "first_max ((pre @ [x]) @ xs) (argmax_scan xs (Suc i) b v)"
      using Cons.prems by (intro Cons.IH) (simp_all add: nth_append first_max_def)
    then show ?thesis using False by simp
  qed
qed

lemma argmax_first_max:
  assumes "p \<noteq> []"
  shows "first_max p (argmax p)"
proof -
  from assms obtain x xs where p: "p = x # xs" by (cases p) auto
  have "first_max [x] 0" by (simp add: first_max_def)
  then have "first_max ([x] @ xs) (argmax_scan xs 1 0 x)"
    by (intro argmax_scan_first_max) simp_all
  then show ?thesis by (simp add: p argmax_def)
qed

lemma sum_list_upt_delta:
  fixes a :: "nat \<Rightarrow> real"
  assumes "i < n"
  shows "sum_list (map (\<lambda>j. (if j = i then 1 else 0) * a j) [0..<n]) = a i"
proof -
  have "sum_list (map (\<lambda>j. (if j = i then 1 else 0) * a j) [0..<n])
      = (\<Sum>j\<in>{0..<n}. (if j = i then 1 else 0) * a j)"
    by (simp add: interv_sum_list_conv_sum_set_nat)
  also have "\<dots> = (\<Sum>j\<in>{0..<n}. if j = i then a j else 0)"
    by (intro sum.cong) simp_all
  also have "\<dots> = a i"
    using assms by simp
  finally show ?thesis .
qed

lemma one_hot_nth: "j < n \<Longrightarrow> one_hot n i ! j = (if j = i then 1 else 0)"
  by (simp add: one_hot_def)

lemma sum_list_one_hot:
  fixes f :: "nat \<Rightarrow> real"
  assumes "i < n"
  shows "sum_list (map (\<lambda>j. one_hot n i ! j * f j) [0..<n]) = f i"
proof -
  have eq: "map (\<lambda>j. one_hot n i ! j * f j) [0..<n]
      = map (\<lambda>j. (if j = i then 1 else 0) * f j) [0..<n]"
    by (rule map_cong) (simp_all add: one_hot_nth)
  show ?thesis
    unfolding eq by (rule sum_list_upt_delta [OF assms])
qed

lemma expectation_one_hot:
  assumes "i < length tbl"
  shows "expectation tbl (one_hot (length tbl) i) = tbl ! i"
  unfolding expectation_def size_of_def centerOf_def
  by (simp only: sum_list_one_hot [OF assms] prod.collapse)


lemma length_softmax [simp]: "length (softmax s) = length s"
  by (simp add: softmax_def Let_def)

lemma decode_pixel_zero:
  assumes "tbl \<noteq> []" and "length s = length tbl"
  shows "decode_pixel \<lparr> table = tbl, temperature = 0 \<rparr> s = Inr (tbl ! argmax (softmax s))"
proof -
  have "softmax s \<noteq> []" using assms by (metis length_0_conv length_softmax)
  then have "argmax (softmax s) < length tbl"
    using argmax_first_max [of "softmax s"] assms(2) by (simp add: first_max_def)
  then show ?thesis
    using assms(2) expectation_one_hot [of "argmax (softmax s)" tbl]
    by (simp add: decode_pixel_def size_of_def reweight_def)
qed

lemma decode_map_zero:
  assumes "tbl \<noteq> []" and "\<forall>s\<in>set score_map. length s = length tbl"
  shows "decode_map \<lparr> table = tbl, temperature = 0 \<rparr> score_map
           = Inr (map (\<lambda>s. tbl ! argmax (softmax s)) score_map)"
  using assms(2)
proof (induction score_map)
  case Nil
  then show ?case by simp
next
  case (Cons s ss)
  then show ?case
    using decode_pixel_zero [OF assms(1), of s] by simp
qed

lemma decode_map_not_Invalid_temperature:
  "decode_map dec score_map \<noteq> Inl (Invalid_temperature T)"
proof (induction score_map)
  case Nil
  then show ?case by simp
next
  case (Cons s ss)
  then show ?case
    by (auto simp: decode_pixel_def split: sum.splits if_splits)
qed

text \<open>
  Claim C2. Building the decoder with \<open>T = 0\<close> succeeds. On a score map whose pixels
  have \<open>N\<close> scores each, decoding with \<open>T = 0\<close> returns, per pixel, the center of the bin
  \<open>i\<close> whose normalised probability is maximal, the lowest such index: no probability
  exceeds \<open>p\<^sub>i\<close>, every earlier one is strictly smaller, and the weights are 1 on \<open>i\<close> and
  0 on every other bin.
\<close>

theorem zero_temperature_selects_first_maximum:
  assumes "tbl \<noteq> []" and "\<forall>s\<in>set score_map. length s = length tbl"
  shows "annealed_decoder tbl 0 = Inr \<lparr> table = tbl, temperature = 0 \<rparr> \<and>
         decode tbl 0 score_map = Inr (map (\<lambda>s. tbl ! argmax (softmax s)) score_map) \<and>
         (\<forall>s\<in>set score_map.
            argmax (softmax s) < length tbl \<and>
            (\<forall>j<length tbl. softmax s ! j \<le> softmax s ! argmax (softmax s)) \<and>
            (\<forall>j<argmax (softmax s). softmax s ! j < softmax s ! argmax (softmax s)) \<and>
            reweight 0 (softmax s) ! argmax (softmax s) = 1 \<and>
            (\<forall>j<length tbl. j \<noteq> argmax (softmax s) \<longrightarrow> reweight 0 (softmax s) ! j = 0))"
proof (intro conjI ballI)
  show "annealed_decoder tbl 0 = Inr \<lparr> table = tbl, temperature = 0 \<rparr>"
    by (simp add: annealed_decoder_def)
  then show "decode tbl 0 score_map = Inr (map (\<lambda>s. tbl ! argmax (softmax s)) score_map)"
    using decode_map_zero [OF assms] by (simp add: decode_def)
next
  fix s assume "s \<in> set score_map"
  then have len: "length (softmax s) = length tbl"
    using assms(2) by simp
  have "softmax s \<noteq> []" by (metis len assms(1) length_0_conv)
  then have fm: "first_max (softmax s) (argmax (softmax s))"
    by (rule argmax_first_max)
  show "argmax (softmax s) < length tbl"
    and "\<forall>j<length tbl. softmax s ! j \<le> softmax s ! argmax (softmax s)"
    and "\<forall>j<argmax (softmax s). softmax s ! j < softmax s ! argmax (softmax s)"
    using fm len by (simp_all add: first_max_def)
  then show "reweight 0 (softmax s) ! argmax (softmax s) = 1"
    and "\<forall>j<length tbl. j \<noteq> argmax (softmax s) \<longrightarrow> reweight 0 (softmax s) ! j = 0"
    using len by (simp_all add: reweight_def one_hot_nth)
qed

theorem zero_temperature_selects_first_maximum_witness:
  "demo_table \<noteq> [] \<and> length [0, 0, 0 :: real] = length demo_table \<and>
   annealed_decoder demo_table 0 = Inr \<lparr> table = demo_table, temperature = 0 \<rparr> \<and>
   decode demo_table 0 [[0, 0, 0]] = Inr [demo_table ! argmax (softmax [0, 0, 0])]"
proof -
  have h: "demo_table \<noteq> []" "\<forall>s\<in>set [[0, 0, 0 :: real]]. length s = length demo_table"
    by (simp_all add: demo_table_def)
  from zero_temperature_selects_first_maximum [OF h]
  have "annealed_decoder demo_table 0 = Inr \<lparr> table = demo_table, temperature = 0 \<rparr>"
    and "decode demo_table 0 [[0, 0, 0]] = Inr [demo_table ! argmax (softmax [0, 0, 0])]"
    by simp_all
  then show ?thesis
    using h by simp
qed

text \<open>
  Claim C7. A temperature \<open>T < 0\<close> is rejected with the failure that names it, when the
  decoder is built and hence when decoding; the outcome differs from that of every valid
  temperature, so a negative temperature is never replaced by a valid one.
\<close>

theorem negative_temperature_is_rejected:
  assumes "T < 0"
  shows "annealed_decoder tbl T = Inl (Invalid_temperature T) \<and>
         decode tbl T score_map = Inl (Invalid_temperature T) \<and>
         (\<forall>T'\<ge>0. annealed_decoder tbl T \<noteq> annealed_decoder tbl T' \<and>
                 decode tbl T score_map \<noteq> decode tbl T' score_map)"
proof -
  have a: "annealed_decoder tbl T = Inl (Invalid_temperature T)"
    using assms by (simp add: annealed_decoder_def)
  then have d: "decode tbl T score_map = Inl (Invalid_temperature T)"
    by (simp add: decode_def)
  have "annealed_decoder tbl T \<noteq> annealed_decoder tbl T'"
    and "decode tbl T score_map \<noteq> decode tbl T' score_map" if "0 \<le> T'" for T'
  proof -
    have a': "annealed_decoder tbl T' = Inr \<lparr> table = tbl, temperature = T' \<rparr>"
      using that by (simp add: annealed_decoder_def)
    show "annealed_decoder tbl T \<noteq> annealed_decoder tbl T'"
      by (simp add: a a')
    have "decode tbl T' score_map = decode_map \<lparr> table = tbl, temperature = T' \<rparr> score_map"
      by (simp add: decode_def a')
    then show "decode tbl T score_map \<noteq> decode tbl T' score_map"
      using decode_map_not_Invalid_temperature [of "\<lparr> table = tbl, temperature = T' \<rparr>"
          score_map T]
      by (simp add: d)
  qed
  then show ?thesis
    using a d by blast
qed

theorem negative_temperature_is_rejected_witness:
  "(- 1 :: real) < 0 \<and>
   annealed_decoder demo_table (- 1) = Inl (Invalid_temperature (- 1)) \<and>
   decode demo_table (- 1) [[0, 0, 0]] = Inl (Invalid_temperature (- 1))"
proof -
  have h: "(- 1 :: real) < 0" by simp
  from negative_temperature_is_rejected [OF h, of demo_table "[[0, 0, 0]]"]
  show ?thesis by simp
qed

subsection \<open>Encoding\<close>

lemma sum_list_assoc_over_indices:
  fixes g :: "'v \<Rightarrow> real"
  assumes "distinct (map fst ws)" and "\<forall>i\<in>set (map fst ws). i < n"
  shows "sum_list (map (\<lambda>i. case map_of ws i of None \<Rightarrow> 0 | Some w \<Rightarrow> g w) [0..<n])
           = sum_list (map (\<lambda>p. g (snd p)) ws)"
  using assms
proof (induction ws)
  case Nil
  then show ?case by simp
next
  case (Cons kw ws)
  obtain k w where kw: "kw = (k, w)" by (cases kw)
  let ?h = "\<lambda>i. case map_of ws i of None \<Rightarrow> 0 | Some w \<Rightarrow> g w"
  have k: "k < n" and notin: "k \<notin> fst ` set ws"
    using Cons.prems kw by auto
  then have hk: "?h k = 0"
    by (simp add: map_of_eq_None_iff [THEN iffD2])
  have "sum_list (map (\<lambda>i. case map_of (kw # ws) i of None \<Rightarrow> 0 | Some w \<Rightarrow> g w) [0..<n])
      = (\<Sum>i\<in>{0..<n}. case map_of (kw # ws) i of None \<Rightarrow> 0 | Some w \<Rightarrow> g w)"
    by (simp add: interv_sum_list_conv_sum_set_nat)
  also have "\<dots> = (\<Sum>i\<in>{0..<n}. (if i = k then g w else 0) + ?h i)"
    by (intro sum.cong) (simp_all add: kw hk)
  also have "\<dots> = (\<Sum>i\<in>{0..<n}. if i = k then g w else 0) + (\<Sum>i\<in>{0..<n}. ?h i)"
    by (simp add: sum.distrib)
  also have "(\<Sum>i\<in>{0..<n}. if i = k then g w else 0) = g w"
    using k by simp
  also have "(\<Sum>i\<in>{0..<n}. ?h i) = sum_list (map ?h [0..<n])"
    by (simp add: interv_sum_list_conv_sum_set_nat)
  also have "\<dots> = sum_list (map (\<lambda>p. g (snd p)) ws)"
    using Cons.prems by (intro Cons.IH) simp_all
  finally show ?case by (simp add: kw)
qed

lemma count_nonzero_assoc_over_indices:
  fixes g :: "'v \<Rightarrow> real"
  shows "length (filter (\<lambda>x. x \<noteq> 0)
           (map (\<lambda>i. case map_of ws i of None \<Rightarrow> 0 | Some w \<Rightarrow> g w) [0..<n])) \<le> length ws"
proof -
  let ?h = "\<lambda>i. case map_of ws i of None \<Rightarrow> 0 | Some w \<Rightarrow> g w"
  have "length (filter (\<lambda>x. x \<noteq> 0) (map ?h [0..<n])) = length (filter (\<lambda>i. ?h i \<noteq> 0) [0..<n])"
    by (simp add: filter_map comp_def)
  also have "\<dots> = card ({i. ?h i \<noteq> 0} \<inter> set [0..<n])"
    by (rule distinct_length_filter) simp
  also have "\<dots> \<le> card (fst ` set ws)"
  proof (rule card_mono)
    show "finite (fst ` set ws)" by simp
    show "{i. ?h i \<noteq> 0} \<inter> set [0..<n] \<subseteq> fst ` set ws"
      by (auto simp: map_of_eq_None_iff split: option.splits)
  qed
  also have "\<dots> \<le> card (set ws)"
    by (rule card_image_le) simp
  also have "\<dots> \<le> length ws"
    by (rule card_length)
  finally show ?thesis .
qed

lemma nearestK_keys:
  "distinct (map fst (nearestK tbl s k))"
  "\<forall>i\<in>set (map fst (nearestK tbl s k)). i < length tbl"
  "length (nearestK tbl s k) = min k (length tbl)"
proof -
  let ?L = "map (\<lambda>i. (i, euclid s (centerOf tbl i))) [0..<size_of tbl]"
  have fL: "map fst ?L = [0..<length tbl]"
    by (simp add: size_of_def comp_def)
  have "mset (map fst (sort_key snd ?L)) = image_mset fst (mset (sort_key snd ?L))"
    by (simp only: mset_map)
  also have "\<dots> = image_mset fst (mset ?L)"
    by (simp only: mset_sort)
  also have "\<dots> = mset (map fst ?L)"
    by (simp only: mset_map)
  finally have m: "mset (map fst (sort_key snd ?L)) = mset [0..<length tbl]"
    by (simp only: fL)
  then have d: "distinct (map fst (sort_key snd ?L))"
    using mset_eq_imp_distinct_iff [OF m] by simp
  have st: "set (map fst (sort_key snd ?L)) = {0..<length tbl}"
    using mset_eq_setD [OF m] by simp
  have tk: "map fst (nearestK tbl s k) = take k (map fst (sort_key snd ?L))"
    by (simp add: nearestK_def take_map)
  show "distinct (map fst (nearestK tbl s k))"
    unfolding tk using d by (rule distinct_take)
  show "\<forall>i\<in>set (map fst (nearestK tbl s k)). i < length tbl"
    unfolding tk using st set_take_subset [of k "map fst (sort_key snd ?L)"] by auto
  show "length (nearestK tbl s k) = min k (length tbl)"
    by (simp add: nearestK_def size_of_def min.commute)
qed


lemma sum_list_divide_const:
  fixes f :: "'a \<Rightarrow> real"
  shows "sum_list (map (\<lambda>p. f p / c) xs) = sum_list (map f xs) / c"
  by (induction xs) (simp_all add: add_divide_distrib)

lemma sum_list_pos_nonempty:
  fixes xs :: "real list"
  assumes "xs \<noteq> []" and "\<forall>x\<in>set xs. 0 < x"
  shows "0 < sum_list xs"
proof -
  from assms(1) obtain y ys where xs: "xs = y # ys" by (cases xs) auto
  have "0 \<le> sum_list ys"
    using assms(2) xs by (intro sum_list_nonneg) (auto intro: less_imp_le)
  moreover have "0 < y" using assms(2) xs by simp
  ultimately show ?thesis by (simp add: xs)
qed

lemma encode_unfold:
  "encode tbl k \<sigma> s =
     map (\<lambda>i. case map_of (map (\<lambda>(i, d). (i, weight \<sigma> d)) (nearestK tbl s k)) i of
                 None \<Rightarrow> 0
               | Some w \<Rightarrow> w / sum_list (map (\<lambda>p. weight \<sigma> (snd p)) (nearestK tbl s k)))
       [0..<length tbl]"
proof -
  have eq: "map snd (map (\<lambda>(i, d). (i, weight \<sigma> d)) xs) = map (\<lambda>p. weight \<sigma> (snd p)) xs"
    for xs :: "(nat \<times> real) list"
    by (simp add: case_prod_beta)
  show ?thesis
    unfolding encode_def Let_def size_of_def eq ..
qed

lemma weights_keys:
  "map fst (map (\<lambda>(i, d). (i, weight \<sigma> d)) xs) = map fst xs"
  by (simp add: case_prod_beta)

lemma weight_pos: "0 < weight \<sigma> d"
  by (simp add: weight_def)

lemma total_weight_pos:
  assumes "tbl \<noteq> []" and "0 < k"
  shows "0 < sum_list (map (\<lambda>p. weight \<sigma> (snd p)) (nearestK tbl s k))"
proof (rule sum_list_pos_nonempty)
  have "length (nearestK tbl s k) \<noteq> 0"
    using assms by (simp add: nearestK_keys(3))
  then show "map (\<lambda>p. weight \<sigma> (snd p)) (nearestK tbl s k) \<noteq> []"
    by simp
  show "\<forall>x\<in>set (map (\<lambda>p. weight \<sigma> (snd p)) (nearestK tbl s k)). 0 < x"
    by (auto simp: weight_pos)
qed

lemma encode_sums_to_one:
  assumes "tbl \<noteq> []" and "0 < k"
  shows "sum_list (encode tbl k \<sigma> s) = 1"
proof -
  let ?nb = "nearestK tbl s k"
  let ?ws = "map (\<lambda>(i, d). (i, weight \<sigma> d)) ?nb"
  let ?total = "sum_list (map (\<lambda>p. weight \<sigma> (snd p)) ?nb)"
  have pos: "0 < ?total" by (rule total_weight_pos [OF assms])
  have "sum_list (encode tbl k \<sigma> s) = sum_list (map (\<lambda>p. snd p / ?total) ?ws)"
    unfolding encode_unfold
  proof (rule sum_list_assoc_over_indices)
    show "distinct (map fst ?ws)"
      unfolding weights_keys by (rule nearestK_keys(1))
    show "\<forall>i\<in>set (map fst ?ws). i < length tbl"
      unfolding weights_keys by (rule nearestK_keys(2))
  qed
  also have "\<dots> = sum_list (map snd ?ws) / ?total"
    by (rule sum_list_divide_const)
  also have "map snd ?ws = map (\<lambda>p. weight \<sigma> (snd p)) ?nb"
    by (simp add: case_prod_beta)
  finally show ?thesis using pos by simp
qed

lemma encode_nonneg:
  assumes "x \<in> set (encode tbl k \<sigma> s)"
  shows "0 \<le> x"
proof -
  let ?nb = "nearestK tbl s k"
  let ?ws = "map (\<lambda>(i, d). (i, weight \<sigma> d)) ?nb"
  let ?total = "sum_list (map (\<lambda>p. weight \<sigma> (snd p)) ?nb)"
  have t: "0 \<le> ?total"
    by (intro sum_list_nonneg) (auto intro: less_imp_le [OF weight_pos])
  from assms obtain i where
    x: "x = (case map_of ?ws i of None \<Rightarrow> 0 | Some w \<Rightarrow> w / ?total)"
    unfolding encode_unfold by auto
  show ?thesis
  proof (cases "map_of ?ws i")
    case None
    then show ?thesis by (simp add: x)
  next
    case (Some w)
    then have "(i, w) \<in> set ?ws" by (rule map_of_SomeD)
    then have "0 < w" by (auto simp: weight_pos)
    then show ?thesis using t Some by (simp add: x)
  qed
qed

lemma encode_sparse:
  "length (filter (\<lambda>x. x \<noteq> 0) (encode tbl k \<sigma> s)) \<le> k"
proof -
  let ?ws = "map (\<lambda>(i, d). (i, weight \<sigma> d)) (nearestK tbl s k)"
  have "length (filter (\<lambda>x. x \<noteq> 0) (encode tbl k \<sigma> s)) \<le> length ?ws"
    unfolding encode_unfold by (rule count_nonzero_assoc_over_indices)
  also have "\<dots> \<le> k"
    by (simp add: nearestK_keys(3))
  finally show ?thesis .
qed

text \<open>
  Claim C3. For a non-empty gamut table, \<open>k > 0\<close> neighbours and a kernel width
  \<open>\<sigma> > 0\<close>, the encoding of every sample has length \<open>N\<close>, its entries are nonnegative,
  they sum to 1 (in particular within \<open>10\<^sup>-\<^sup>6\<close> of 1), and at most \<open>k\<close> of them are
  nonzero.
\<close>

theorem encode_is_sparse_distribution:
  assumes "tbl \<noteq> []" and "0 < k" and "0 < \<sigma>"
  shows "length (encode tbl k \<sigma> s) = size_of tbl \<and>
         (\<forall>x\<in>set (encode tbl k \<sigma> s). 0 \<le> x) \<and>
         sum_list (encode tbl k \<sigma> s) = 1 \<and>
         \<bar>sum_list (encode tbl k \<sigma> s) - 1\<bar> \<le> 1 / 10 ^ 6 \<and>
         length (filter (\<lambda>x. x \<noteq> 0) (encode tbl k \<sigma> s)) \<le> k"
proof -
  have "length (encode tbl k \<sigma> s) = size_of tbl"
    by (simp add: encode_unfold size_of_def)
  moreover have "\<forall>x\<in>set (encode tbl k \<sigma> s). 0 \<le> x"
    using encode_nonneg by blast
  moreover have one: "sum_list (encode tbl k \<sigma> s) = 1"
    by (rule encode_sums_to_one [OF assms(1,2)])
  moreover have "\<bar>sum_list (encode tbl k \<sigma> s) - 1\<bar> \<le> 1 / 10 ^ 6"
    by (simp add: one)
  moreover have "length (filter (\<lambda>x. x \<noteq> 0) (encode tbl k \<sigma> s)) \<le> k"
    by (rule encode_sparse)
  ultimately show ?thesis by blast
qed

theorem encode_is_sparse_distribution_witness:
  "demo_table \<noteq> [] \<and> (0::nat) < 2 \<and> (0::real) < 5 \<and>
   length (encode demo_table 2 5 (3, 1)) = 3 \<and>
   sum_list (encode demo_table 2 5 (3, 1)) = 1 \<and>
   length (filter (\<lambda>x. x \<noteq> 0) (encode demo_table 2 5 (3, 1))) \<le> 2"
proof -
  have h: "demo_table \<noteq> []" "(0::nat) < 2" "(0::real) < 5"
    by (simp_all add: demo_table_def)
  from encode_is_sparse_distribution [OF h, of "(3, 1)"]
  show ?thesis
    using h by (simp add: size_of_def demo_table_def)
qed

subsection \<open>Normalisation over the reals\<close>

text \<open>
  Over the reals every normalised probability is strictly positive, so no score vector
  over two or more bins is normalised to a one-hot distribution, however far its scores
  are scaled. A normalisation that returns exactly one-hot values exists only in
  floating-point arithmetic, where the exponential of a large negative number rounds
  to 0.
\<close>

lemma softmax_positive:
  assumes "x \<in> set (softmax s)"
  shows "0 < x"
proof -
  let ?es = "map (\<lambda>y. exp (y - max_score s)) s"
  from assms have ne: "s \<noteq> []"
    by (auto simp: softmax_def Let_def)
  have "0 < sum_list ?es"
    by (rule sum_list_pos_nonempty) (use ne in auto)
  moreover from assms obtain y where "x = exp (y - max_score s) / sum_list ?es"
    by (auto simp: softmax_def Let_def)
  ultimately show ?thesis
    by simp
qed

lemma softmax_not_one_hot:
  assumes "2 \<le> n"
  shows "softmax s \<noteq> one_hot n i"
proof
  assume eq: "softmax s = one_hot n i"
  obtain j where j: "j < n" "j \<noteq> i"
  proof (cases "i = 0")
    case True
    then show ?thesis using assms that [of 1] by simp
  next
    case False
    then show ?thesis using assms that [of 0] by simp
  qed
  then have "one_hot n i ! j = 0"
    by (simp add: one_hot_nth)
  moreover have "one_hot n i ! j \<in> set (one_hot n i)"
    using j(1) by (intro nth_mem) (simp add: one_hot_def)
  ultimately have "(0 :: real) \<in> set (softmax s)"
    using eq by simp
  then show False
    using softmax_positive [of 0 s] by simp
qed

end
